theory Spec2Isabelle
  imports Main "HOL-Library.FSet"
begin

section \<open>Python values used by the application\<close>

text \<open>
  The only exception that can leave \<open>download_videos\<close> is the \<open>IndexError\<close> of a list
  subscript evaluated outside the \<open>try\<close> block (lines 212 and 213 of \<open>app.py\<close>).
\<close>

datatype py_error = IndexError

text \<open>
  Python list subscript \<open>xs[i]\<close> with an \<open>int\<close>: a negative subscript counts from the end,
  anything outside \<open>-len(xs) .. len(xs) - 1\<close> raises.
\<close>

definition py_index :: "'a list \<Rightarrow> int \<Rightarrow> py_error + 'a" where
  "py_index xs i =
     (if 0 \<le> i \<and> i < int (length xs) then Inr (xs ! nat i)
      else if i < 0 \<and> - int (length xs) \<le> i then Inr (xs ! nat (int (length xs) + i))
      else Inl IndexError)"

text \<open>\<open>d.get(k, default)\<close> on a dictionary.\<close>

definition dict_get :: "('k \<rightharpoonup> 'v) \<Rightarrow> 'k \<Rightarrow> 'v \<Rightarrow> 'v" where
  "dict_get d k dflt = (case d k of None \<Rightarrow> dflt | Some v \<Rightarrow> v)"

section \<open>Data model\<close>

text \<open>
  The downloader object (\<open>self\<close>): its two attributes.
\<close>

record downloader =
  download_path :: string
  ffmpeg_available :: bool

text \<open>
  One element of \<open>st.session_state.video_data\<close> (lines 472 to 479). The dictionary always
  has the same keys (\<open>index\<close>, \<open>id\<close>, \<open>title\<close>, \<open>duration\<close>, \<open>url\<close>, \<open>thumbnail\<close>), so it is
  a record. The thumbnail image is kept only as the fact
  whether one was fetched; the duration is the already formatted text.
\<close>

record video_item =
  item_index :: nat
  item_id :: string
  item_title :: string
  item_duration :: string
  item_url :: string
  item_thumbnail :: bool

text \<open>
  The options dictionary handed to the extractor (lines 132 to 173). The key
  \<open>postprocessors\<close> is present only for audio with FFmpeg, hence the option.
  The key \<open>progress_hooks\<close> (line 232) holds call-backs into the user interface and is
  left out.
\<close>

record postprocessor =
  key :: string
  preferredcodec :: string
  preferredquality :: string

record ydl_opts =
  outtmpl :: string
  quiet :: bool
  no_warnings :: bool
  ignoreerrors :: bool
  retries :: nat
  fragment_retries :: nat
  file_access_retries :: nat
  socket_timeout :: nat
  extract_timeout :: nat
  format :: string
  overwrites :: bool
  extract_flat :: bool
  postprocessors :: "postprocessor list option"

text \<open>
  Strings are lists of characters; where the source slices a string (\<open>video_title[:60]\<close>),
  a character of the model stands for a character of the Python string.

  The lines appended to \<open>console_content\<close>. Every constructor is one f-string of the source,
  its arguments are the interpolated values; the decoration (emoji, brackets) is fixed text of
  the template and carries no information. \<open>ItemSuccess\<close> carries the size in bytes that
  the source prints in megabytes.
\<close>

datatype console_line =
    StartingProcess
  | DownloadingTo nat string
  | ReliableSettings
  | FormatAudio bool
  | FormatVideo string
  | Separator
  | ItemStarting nat nat string
  | ItemConnecting nat nat string
  | ItemSuccess nat nat string nat
  | ItemFailed nat nat string
  | ItemError nat nat string
  | ErrorDetails string
  | AllCompleted nat nat
  | PartialSuccess nat nat
  | DownloadsFailed int
  | AllFailed nat
  | FilesSavedTo string

text \<open>
  What the function shows through Streamlit besides the console: \<open>st.error\<close>, the
  sub-header, the progress bar (the fraction as numerator and denominator, an integer
  argument \<open>n\<close> as \<open>n\<close> of 100), the overall
  status text, the per-item status placeholder and the balloons. Re-rendering the console
  (\<open>update_console\<close>) shows \<open>console_content\<close> as it is and adds nothing. The status lines
  that the extractor writes through the progress hook while it runs are not listed.
\<close>

datatype ui_event =
    StError string
  | Subheader
  | ProgressBar nat nat
  | OverallStatus nat nat string
  | OverallStatusClear
  | StatusCompleted string
  | StatusNotCreated string
  | StatusError string string
  | Balloons

text \<open>
  The outside world. \<open>'w\<close> is the state of everything outside the program (network, disk),
  \<open>'i\<close> the info object the extractor returns. \<open>extract_info\<close> is
  \<open>YoutubeDL(opts).extract_info(url, download=True)\<close>: it changes the world and either
  returns an info object or raises an \<open>Exception\<close> (\<open>Inl\<close> of its message).
  \<open>prepare_filename\<close> may raise as well (the info object is \<open>None\<close> when the extractor has
  swallowed an error under \<open>ignoreerrors\<close>). \<open>os_path_exists\<close> and \<open>os_path_getsize\<close>
  read the disk; \<open>os_path_join\<close> depends on the platform.
\<close>

record ('w, 'i) environment =
  os_path_join :: "string \<Rightarrow> string \<Rightarrow> string"
  extract_info :: "ydl_opts \<Rightarrow> string \<Rightarrow> 'w \<Rightarrow> (string + 'i) \<times> 'w"
  prepare_filename :: "ydl_opts \<Rightarrow> 'i \<Rightarrow> string + string"
  os_path_exists :: "'w \<Rightarrow> string \<Rightarrow> bool"
  os_path_getsize :: "'w \<Rightarrow> string \<Rightarrow> nat"

text \<open>The mutable state of one call of \<open>download_videos\<close>.\<close>

record 'w dl_state =
  console_content :: "console_line list"
  success_count :: nat
  ui :: "ui_event list"
  world :: 'w

section \<open>Format selection (lines 132 to 173)\<close>

definition quality_map :: "string \<rightharpoonup> string" where
  "quality_map = map_of
     [(''best'', ''best[height<=1080]/best[height<=720]/best''),
      (''1080p'', ''best[height<=1080]''),
      (''720p'', ''best[height<=720]''),
      (''480p'', ''best[height<=480]''),
      (''360p'', ''best[height<=360]'')]"

definition build_ydl_opts ::
  "(string \<Rightarrow> string \<Rightarrow> string) \<Rightarrow> downloader \<Rightarrow> bool \<Rightarrow> string \<Rightarrow> ydl_opts" where
  "build_ydl_opts join self audio_only quality =
     (let opts = \<lparr>outtmpl = join (download_path self) ''%(title)s.%(ext)s'',
                  quiet = False,
                  no_warnings = False,
                  ignoreerrors = True,
                  retries = 10,
                  fragment_retries = 10,
                  file_access_retries = 3,
                  socket_timeout = 30,
                  extract_timeout = 60,
                  format = (if \<not> audio_only then ''best[height<=720]/best[height<=480]/best''
                            else ''bestaudio/best''),
                  overwrites = True,
                  extract_flat = False,
                  postprocessors = None\<rparr>
      in if audio_only then
           (if ffmpeg_available self then
              opts\<lparr>format := ''bestaudio/best'',
                   postprocessors := Some [\<lparr>key = ''FFmpegExtractAudio'',
                                           preferredcodec = ''mp3'',
                                           preferredquality = ''192''\<rparr>]\<rparr>
            else opts\<lparr>format := ''bestaudio[ext=m4a]/bestaudio/best''\<rparr>)
         else opts\<lparr>format := dict_get quality_map quality ''best[height<=720]/best''\<rparr>)"

section \<open>The download loop (lines 210 to 264)\<close>

text \<open>
  The body of the loop for one item whose URL and title have been read (lines 215 to 264):
  \<open>i\<close> is the counter of \<open>enumerate\<close>. The \<open>try\<close> block is the case distinction on what
  the extractor does; both ways of raising end in the \<open>except\<close> branch. The pause of
  one second has no effect on the state.
\<close>

definition download_item ::
  "('w, 'i) environment \<Rightarrow> ydl_opts \<Rightarrow> nat \<Rightarrow> nat \<Rightarrow> string \<Rightarrow> string \<Rightarrow> 'w dl_state \<Rightarrow> 'w dl_state" where
  "download_item env opts total_count i video_url video_title st =
     (let st1 = st\<lparr>ui := ui st @ [OverallStatus (i + 1) total_count (take 60 video_title),
                                   ProgressBar i total_count],
                   console_content := console_content st
                      @ [ItemStarting (i + 1) total_count video_title,
                         ItemConnecting (i + 1) total_count video_url]\<rparr>;
          (r, w') = extract_info env opts video_url (world st1);
          st2 = st1\<lparr>world := w'\<rparr>;
          on_error = (\<lambda>error_msg.
             st2\<lparr>console_content := console_content st2
                     @ [ItemError (i + 1) total_count video_title, ErrorDetails error_msg],
                  ui := ui st2 @ [StatusError (take 50 video_title) (take 50 error_msg)]\<rparr>);
          st3 = (case r of
                   Inl error_msg \<Rightarrow> on_error error_msg
                 | Inr info \<Rightarrow>
                     (case prepare_filename env opts info of
                        Inl error_msg \<Rightarrow> on_error error_msg
                      | Inr filename \<Rightarrow>
                          if os_path_exists env w' filename then
                            st2\<lparr>success_count := success_count st2 + 1,
                                 console_content := console_content st2
                                   @ [ItemSuccess (i + 1) total_count video_title
                                        (os_path_getsize env w' filename)],
                                 ui := ui st2 @ [StatusCompleted (take 50 video_title)]\<rparr>
                          else
                            st2\<lparr>console_content := console_content st2
                                   @ [ItemFailed (i + 1) total_count video_title],
                                 ui := ui st2 @ [StatusNotCreated (take 50 video_title)]\<rparr>))
      in st3\<lparr>ui := ui st3 @ [ProgressBar (i + 1) total_count]\<rparr>)"

text \<open>
  The loop over \<open>enumerate(sorted(selected_indices))\<close>. The guard of line 211 compares with
  the length of \<open>video_urls\<close> only; the two subscripts of lines 212 and 213 are outside the
  \<open>try\<close> block, so their \<open>IndexError\<close> ends the whole call. The exception is returned with
  the state reached when it was raised: what earlier items have done stays done.
\<close>

fun download_loop ::
  "('w, 'i) environment \<Rightarrow> ydl_opts \<Rightarrow> string list \<Rightarrow> video_item list \<Rightarrow> nat \<Rightarrow>
   (nat \<times> int) list \<Rightarrow> 'w dl_state \<Rightarrow> py_error \<times> 'w dl_state + 'w dl_state" where
  "download_loop env opts video_urls video_data total_count [] st = Inr st"
| "download_loop env opts video_urls video_data total_count ((i, idx) # rest) st =
     (if idx < int (length video_urls) then
        (case py_index video_urls idx of
           Inl e \<Rightarrow> Inl (e, st)
         | Inr video_url \<Rightarrow>
             (case py_index video_data idx of
                Inl e \<Rightarrow> Inl (e, st)
              | Inr item \<Rightarrow>
                  download_loop env opts video_urls video_data total_count rest
                    (download_item env opts total_count i video_url (item_title item) st)))
      else download_loop env opts video_urls video_data total_count rest st)"

section \<open>The final summary (lines 266 to 283)\<close>

definition summary_lines :: "nat \<Rightarrow> nat \<Rightarrow> console_line list" where
  "summary_lines success total_count =
     (if success = total_count then [AllCompleted success total_count]
      else if success > 0 then
        [PartialSuccess success total_count, DownloadsFailed (int total_count - int success)]
      else [AllFailed total_count])"

definition final_summary :: "downloader \<Rightarrow> nat \<Rightarrow> 'w dl_state \<Rightarrow> 'w dl_state" where
  "final_summary self total_count st =
     st\<lparr>ui := ui st @ [ProgressBar 100 100, OverallStatusClear]
               @ (if success_count st = total_count then [Balloons] else []),
        console_content := console_content st @ [Separator]
               @ summary_lines (success_count st) total_count
               @ [FilesSavedTo (download_path self)]\<rparr>"

section \<open>\<open>download_videos\<close> (lines 124 to 283)\<close>

text \<open>
  The result is the returned Boolean together with the final state, or the exception
  together with the state in which it was raised. The two early returns
  (lines 127 to 129 and 178 to 180) show one error message and leave a state in which
  nothing has been written to the console and nothing has been counted.
  \<open>video_data\<close> is \<open>st.session_state.video_data\<close>, which the function reads in line 213.
\<close>

definition nothing_done :: "string \<Rightarrow> 'w \<Rightarrow> 'w dl_state" where
  "nothing_done msg w =
     \<lparr>console_content = [], success_count = 0, ui = [StError msg], world = w\<rparr>"

definition initial_console :: "downloader \<Rightarrow> nat \<Rightarrow> bool \<Rightarrow> string \<Rightarrow> console_line list" where
  "initial_console self total_count audio_only quality =
     [StartingProcess, DownloadingTo total_count (download_path self), ReliableSettings,
      (if audio_only then FormatAudio (ffmpeg_available self) else FormatVideo quality),
      Separator]"

definition download_videos ::
  "('w, 'i) environment \<Rightarrow> downloader \<Rightarrow> video_item list \<Rightarrow> 'w \<Rightarrow>
   string list \<Rightarrow> int fset \<Rightarrow> bool \<Rightarrow> string \<Rightarrow>
   py_error \<times> 'w dl_state + bool \<times> 'w dl_state" where
  "download_videos env self video_data w video_urls selected_indices audio_only quality =
     (if video_urls = [] then Inr (False, nothing_done ''No videos selected for download'' w)
      else
        let opts = build_ydl_opts (os_path_join env) self audio_only quality;
            total_count = fcard selected_indices
        in if total_count = 0 then Inr (False, nothing_done ''No videos selected'' w)
           else
             (case download_loop env opts video_urls video_data total_count
                     (enumerate 0 (sorted_list_of_fset selected_indices))
                     \<lparr>console_content = initial_console self total_count audio_only quality,
                      success_count = 0,
                      ui = [Subheader, ProgressBar 0 100],
                      world = w\<rparr> of
                Inl raised \<Rightarrow> Inl raised
              | Inr st \<Rightarrow> Inr (0 < success_count st, final_summary self total_count st)))"

section \<open>Reading the console\<close>

text \<open>
  The source keeps no list of outcomes; what it records for an item is the line it appends
  to the console. An outcome is a line of one of the three closing kinds (success, file not
  created, error); it carries the 1-based position of the item in the sorted selection and
  the title. An attempt is a line announcing the connection to a URL, written immediately
  before the extractor is called.
\<close>

datatype outcome = Succeeded | Failed

fun outcome_of :: "console_line \<Rightarrow> (nat \<times> string \<times> outcome) option" where
  "outcome_of (ItemSuccess pos tot t sz) = Some (pos, t, Succeeded)"
| "outcome_of (ItemFailed pos tot t) = Some (pos, t, Failed)"
| "outcome_of (ItemError pos tot t) = Some (pos, t, Failed)"
| "outcome_of _ = None"

definition outcomes :: "console_line list \<Rightarrow> (nat \<times> string \<times> outcome) list" where
  "outcomes ls = List.map_filter outcome_of ls"


definition successes :: "console_line list \<Rightarrow> nat" where
  "successes ls = length (filter (\<lambda>r. snd (snd r) = Succeeded) (outcomes ls))"

fun attempt_of :: "console_line \<Rightarrow> (nat \<times> string) option" where
  "attempt_of (ItemConnecting pos tot u) = Some (pos, u)"
| "attempt_of _ = None"

definition attempts :: "console_line list \<Rightarrow> (nat \<times> string) list" where
  "attempts ls = List.map_filter attempt_of ls"



fun is_st_error :: "ui_event \<Rightarrow> bool" where
  "is_st_error (StError msg) = True"
| "is_st_error _ = False"

text \<open>
  The success criterion in the words of the specification: the download call returns, the
  service reports a path, and a file exists at that path afterwards.
\<close>

definition file_materialized :: "('w, 'i) environment \<Rightarrow> ydl_opts \<Rightarrow> string \<Rightarrow> 'w \<Rightarrow> bool" where
  "file_materialized env opts video_url w =
     (case extract_info env opts video_url w of
        (Inl error_msg, w') \<Rightarrow> False
      | (Inr info, w') \<Rightarrow>
          (case prepare_filename env opts info of
             Inl error_msg \<Rightarrow> False
           | Inr filename \<Rightarrow> os_path_exists env w' filename))"




section \<open>Format strings of the extractor\<close>

text \<open>
  In a format selector of yt-dlp the alternatives are separated by a slash and tried from
  left to right; the alternative \<open>best\<close> without a filter is "best available". A selector
  falls back to best available when \<open>best\<close> is among the alternatives after the first.
\<close>

fun split_on :: "char \<Rightarrow> string \<Rightarrow> string list" where
  "split_on sep [] = [[]]"
| "split_on sep (c # s) =
     (if c = sep then [] # split_on sep s
      else (case split_on sep s of [] \<Rightarrow> [[c]] | w # ws \<Rightarrow> (c # w) # ws))"

definition format_alternatives :: "string \<Rightarrow> string list" where
  "format_alternatives f = split_on CHR ''/'' f"

definition has_best_fallback :: "string \<Rightarrow> bool" where
  "has_best_fallback f = (''best'' \<in> set (tl (format_alternatives f)))"

section \<open>\<open>is_valid_playlist_url\<close> (lines 71 to 74)\<close>

text \<open>
  The fragment of Python's regular expressions that the pattern uses: literal text (escapes
  resolved), \<open>r?\<close>, \<open>r|s\<close>, concatenation and \<open>[...]+\<close> over a character class of single
  characters and ranges. Groups only capture and are not represented; the anchor \<open>^\<close> is
  implied by \<open>re.match\<close>, which matches at the beginning of the string only.
  Characters are bytes here and code points in Python: the pattern is ASCII, and no byte of
  the UTF-8 encoding of a non-ASCII code point is an ASCII character, so both agree.
\<close>

datatype cls_item = Single char | Range char char

fun in_item :: "char \<Rightarrow> cls_item \<Rightarrow> bool" where
  "in_item c (Single d) = (c = d)"
| "in_item c (Range lo hi) =
     ((of_char lo :: nat) \<le> of_char c \<and> (of_char c :: nat) \<le> of_char hi)"

definition in_class :: "cls_item list \<Rightarrow> char \<Rightarrow> bool" where
  "in_class items c = list_ex (in_item c) items"

datatype regex =
    Lit string
  | Opt regex
  | Alt regex regex
  | Seq regex regex
  | PlusCls "cls_item list"

text \<open>
  The backtracking matcher: \<open>re_step r s\<close> lists what can remain of \<open>s\<close> after \<open>r\<close> has
  matched at its beginning, in the order in which Python tries the possibilities (the
  optional part first, the left alternative first, the longest repetition first).
  \<open>re.match\<close> returns the first complete match, or \<open>None\<close>.
\<close>

fun re_step :: "regex \<Rightarrow> string \<Rightarrow> string list" where
  "re_step (Lit l) s = (if take (length l) s = l then [drop (length l) s] else [])"
| "re_step (Opt r) s = re_step r s @ [s]"
| "re_step (Alt r1 r2) s = re_step r1 s @ re_step r2 s"
| "re_step (Seq r1 r2) s = concat (map (re_step r2) (re_step r1 s))"
| "re_step (PlusCls items) s =
     map (\<lambda>k. drop k s) (rev [1..<Suc (length (takeWhile (in_class items) s))])"

definition re_match :: "regex \<Rightarrow> string \<Rightarrow> string option" where
  "re_match r s =
     (case re_step r s of [] \<Rightarrow> None | rest # _ \<Rightarrow> Some (take (length s - length rest) s))"

definition id_class :: "cls_item list" where
  "id_class = [Range CHR ''a'' CHR ''z'', Range CHR ''A'' CHR ''Z'', Range CHR ''0'' CHR ''9'',
               Single CHR ''_'', Single CHR ''-'']"

definition playlist_pattern :: regex where
  "playlist_pattern =
     Seq (Opt (Seq (Lit ''http'') (Seq (Opt (Lit ''s'')) (Lit ''://''))))
    (Seq (Opt (Lit ''www.''))
    (Seq (Alt (Lit ''youtube.com'') (Seq (Lit ''youtu'') (Seq (Opt (Lit ''.'')) (Lit ''be''))))
    (Seq (Lit ''/playlist?list='') (PlusCls id_class))))"

definition is_valid_playlist_url :: "string \<Rightarrow> bool" where
  "is_valid_playlist_url url = (re_match playlist_pattern url \<noteq> None)"

text \<open>The language of an expression, for reasoning about the matcher.\<close>

definition conc :: "string set \<Rightarrow> string set \<Rightarrow> string set" where
  "conc A B = {u @ v | u v. u \<in> A \<and> v \<in> B}"

fun lang :: "regex \<Rightarrow> string set" where
  "lang (Lit l) = {l}"
| "lang (Opt r) = insert [] (lang r)"
| "lang (Alt r1 r2) = lang r1 \<union> lang r2"
| "lang (Seq r1 r2) = conc (lang r1) (lang r2)"
| "lang (PlusCls items) = {u. u \<noteq> [] \<and> (\<forall>c \<in> set u. in_class items c)}"

text \<open>
  What the pattern accepts in front of \<open>/playlist?list=\<close>: the scheme or nothing,
  \<open>www.\<close> or nothing, and one of three hosts; the third arises from the optional dot in
  \<open>youtu\.?be\<close>.
\<close>

definition accepted_origins :: "string list" where
  "accepted_origins =
     [scheme @ www @ host.
        scheme \<leftarrow> [''https://'', ''http://'', []],
        www \<leftarrow> [''www.'', []],
        host \<leftarrow> [''youtube.com'', ''youtu.be'', ''youtube'']]"

text \<open>\<open>pat in s\<close>: the text \<open>pat\<close> occurs somewhere in \<open>s\<close>.\<close>

fun contains :: "string \<Rightarrow> string \<Rightarrow> bool" where
  "contains pat [] = (pat = [])"
| "contains pat (c # s) = (take (length pat) (c # s) = pat \<or> contains pat s)"

section \<open>The session state and the playlist page of \<open>main\<close> (lines 403 to 586)\<close>

text \<open>
  \<open>st.session_state\<close> is a dictionary; lines 404 to 413 add each of the five keys only when
  it is absent, so a stored value survives every run of the script. The fields of
  \<open>session_state\<close> are the five keys, prefixed with \<open>ss_\<close>.
\<close>

record session_dict =
  stored_selected_videos :: "int fset option"
  stored_select_all_clicked :: "bool option"
  stored_clear_all_clicked :: "bool option"
  stored_video_data :: "video_item list option"
  stored_video_urls :: "string list option"

record session_state =
  ss_selected_videos :: "int fset"
  ss_select_all_clicked :: bool
  ss_clear_all_clicked :: bool
  ss_video_data :: "video_item list"
  ss_video_urls :: "string list"

definition init_session_state :: "session_dict \<Rightarrow> session_state" where
  "init_session_state d =
     \<lparr>ss_selected_videos = (case stored_selected_videos d of None \<Rightarrow> {||} | Some v \<Rightarrow> v),
      ss_select_all_clicked = (case stored_select_all_clicked d of None \<Rightarrow> False | Some v \<Rightarrow> v),
      ss_clear_all_clicked = (case stored_clear_all_clicked d of None \<Rightarrow> False | Some v \<Rightarrow> v),
      ss_video_data = (case stored_video_data d of None \<Rightarrow> [] | Some v \<Rightarrow> v),
      ss_video_urls = (case stored_video_urls d of None \<Rightarrow> [] | Some v \<Rightarrow> v)\<rparr>"

text \<open>
  A playlist entry as the extractor returns it; an entry of the list may be \<open>None\<close>.
  The duration is a whole number of seconds when present.
\<close>

record entry =
  entry_id :: string
  entry_title :: "string option"
  entry_duration :: "nat option"

text \<open>The format \<open>{n:02d}\<close> for a number that is not negative.\<close>

fun decimal :: "nat \<Rightarrow> string" where
  "decimal n =
     (if n < 10 then [char_of (48 + n)]
      else decimal (n div 10) @ [char_of (48 + n mod 10)])"

declare decimal.simps [simp del]

definition format_02d :: "nat \<Rightarrow> string" where
  "format_02d n = (let d = decimal n in if length d < 2 then CHR ''0'' # d else d)"

definition format_duration :: "nat option \<Rightarrow> string" where
  "format_duration d =
     (case d of
        None \<Rightarrow> ''Unknown''
      | Some secs \<Rightarrow>
          if secs = 0 then ''Unknown''
          else
            let minutes = secs div 60; seconds = secs mod 60;
                hours = minutes div 60; minutes = minutes mod 60
            in if hours > 0 then
                 format_02d hours @ '':'' @ format_02d minutes @ '':'' @ format_02d seconds
               else format_02d minutes @ '':'' @ format_02d seconds)"

text \<open>
  The loop of lines 449 to 479 that fills \<open>video_data\<close> and \<open>video_urls\<close>; \<open>thumb\<close> tells
  whether the thumbnail of a video id could be fetched.
\<close>

fun build_video_lists ::
  "(string \<Rightarrow> bool) \<Rightarrow> (nat \<times> entry option) list \<Rightarrow>
   video_item list \<times> string list \<Rightarrow> video_item list \<times> string list" where
  "build_video_lists thumb [] acc = acc"
| "build_video_lists thumb ((i, None) # rest) acc = build_video_lists thumb rest acc"
| "build_video_lists thumb ((i, Some video) # rest) (vdata, vurls) =
     (let video_id = entry_id video;
          video_url = ''https://www.youtube.com/watch?v='' @ video_id
      in build_video_lists thumb rest
           (vdata @ [\<lparr>item_index = i,
                       item_id = video_id,
                       item_title = (case entry_title video of
                                       None \<Rightarrow> ''Unknown Title'' | Some t \<Rightarrow> t),
                       item_duration = format_duration (entry_duration video),
                       item_url = video_url,
                       item_thumbnail = thumb video_id\<rparr>],
            vurls @ [video_url]))"

text \<open>
  What the user did on the page in this run of the script: nothing, one of the two
  buttons, the form (with the state of the check boxes), or the download button.
\<close>

datatype click =
    NoClick
  | SelectAllClick
  | ClearAllClick
  | UpdateSelections "nat \<Rightarrow> bool"
  | StartDownload

text \<open>
  One run of the page for a playlist whose entries have been fetched (lines 436 to 570).
  The lists are rebuilt and stored in every run. A click on one of the two buttons or on
  the form ends the run with \<open>st.rerun()\<close>; otherwise the two flags are shown and cleared.
\<close>

definition playlist_page ::
  "(string \<Rightarrow> bool) \<Rightarrow> entry option list \<Rightarrow> click \<Rightarrow> session_state \<Rightarrow> session_state" where
  "playlist_page thumb videos clicked s =
     (if videos = [] then s
      else
        let (vdata, vurls) = build_video_lists thumb (enumerate 0 videos) ([], []);
            s1 = s\<lparr>ss_video_data := vdata, ss_video_urls := vurls\<rparr>
        in case clicked of
             SelectAllClick \<Rightarrow>
               s1\<lparr>ss_selected_videos := fset_of_list (map int [0..<length vdata]),
                   ss_select_all_clicked := True,
                   ss_clear_all_clicked := False\<rparr>
           | ClearAllClick \<Rightarrow>
               s1\<lparr>ss_selected_videos := {||},
                   ss_clear_all_clicked := True,
                   ss_select_all_clicked := False\<rparr>
           | UpdateSelections checked \<Rightarrow>
               s1\<lparr>ss_select_all_clicked := False, ss_clear_all_clicked := False,
                   ss_selected_videos := fset_of_list (map int (filter checked [0..<length vdata]))\<rparr>
           | _ \<Rightarrow> s1\<lparr>ss_select_all_clicked := False, ss_clear_all_clicked := False\<rparr>)"

text \<open>
  The download section (lines 575 to 586): the button is offered only for a selection that
  is not empty, and calls \<open>download_videos\<close> with the lists of the session.
\<close>

definition start_download ::
  "('w, 'i) environment \<Rightarrow> downloader \<Rightarrow> session_state \<Rightarrow> 'w \<Rightarrow> bool \<Rightarrow> string \<Rightarrow>
   (py_error \<times> 'w dl_state + bool \<times> 'w dl_state) option" where
  "start_download env self s w audio_only quality =
     (if ss_selected_videos s \<noteq> {||} then
        Some (download_videos env self (ss_video_data s) w (ss_video_urls s) (ss_selected_videos s)
                audio_only quality)
      else None)"

section \<open>A simulated extractor for the examples\<close>

text \<open>
  The world is the list of files on disk. Downloading a URL creates the file named after
  it, except that the URLs in \<open>raising\<close> make the extractor raise and those in \<open>missing\<close>
  make it return without having written a file.
\<close>

definition sim_env :: "string list \<Rightarrow> string list \<Rightarrow> (string list, string) environment" where
  "sim_env raising missing =
     \<lparr>os_path_join = (\<lambda>a b. a @ ''/'' @ b),
      extract_info = (\<lambda>opts u disk.
         if u \<in> set raising then (Inl ''unavailable'', disk)
         else if u \<in> set missing then (Inr (u @ ''.mp4''), disk)
         else (Inr (u @ ''.mp4''), disk @ [u @ ''.mp4''])),
      prepare_filename = (\<lambda>opts info. Inr info),
      os_path_exists = (\<lambda>disk f. f \<in> set disk),
      os_path_getsize = (\<lambda>disk f. 1024)\<rparr>"

definition sim_self :: downloader where
  "sim_self = \<lparr>download_path = ''downloads'', ffmpeg_available = True\<rparr>"

definition sim_item :: "nat \<Rightarrow> string \<Rightarrow> video_item" where
  "sim_item i name =
     \<lparr>item_index = i, item_id = name, item_title = name, item_duration = ''Unknown'',
      item_url = ''https://www.youtube.com/watch?v='' @ name, item_thumbnail = False\<rparr>"

text \<open>The state that the example run of three items ends in, and a state to start one item from.\<close>

definition sim_run_state :: "string list dl_state" where
  "sim_run_state =
     \<lparr>console_content =
        [StartingProcess, DownloadingTo 3 ''downloads'', ReliableSettings, FormatVideo ''720p'',
         Separator,
         ItemStarting 1 3 ''a'', ItemConnecting 1 3 ''u0'', ItemSuccess 1 3 ''a'' 1024,
         ItemStarting 2 3 ''b'', ItemConnecting 2 3 ''u1'', ItemError 2 3 ''b'',
         ErrorDetails ''unavailable'',
         ItemStarting 3 3 ''c'', ItemConnecting 3 3 ''u2'', ItemSuccess 3 3 ''c'' 1024,
         Separator, PartialSuccess 2 3, DownloadsFailed 1, FilesSavedTo ''downloads''],
      success_count = 2,
      ui = [Subheader, ProgressBar 0 100,
            OverallStatus 1 3 ''a'', ProgressBar 0 3, StatusCompleted ''a'', ProgressBar 1 3,
            OverallStatus 2 3 ''b'', ProgressBar 1 3, StatusError ''b'' ''unavailable'',
            ProgressBar 2 3,
            OverallStatus 3 3 ''c'', ProgressBar 2 3, StatusCompleted ''c'', ProgressBar 3 3,
            ProgressBar 100 100, OverallStatusClear],
      world = [''u0.mp4'', ''u2.mp4'']\<rparr>"

definition sim_start :: "string list dl_state" where
  "sim_start = \<lparr>console_content = [Separator], success_count = 0, ui = [], world = []\<rparr>"

section \<open>The documented shape of a playlist URL\<close>

text \<open>
  The shape in the words of the specification: optional scheme, optional \<open>www.\<close>, host
  \<open>youtube.com\<close> or \<open>youtu.be\<close>, path \<open>/playlist\<close>, and the parameter \<open>list=\<close> followed by
  at least one letter, digit, underscore or hyphen. As the validator does, it reads the
  beginning of the string only.
\<close>

definition documented_origins :: "string list" where
  "documented_origins =
     [scheme @ www @ host.
        scheme \<leftarrow> [''https://'', ''http://'', []],
        www \<leftarrow> [''www.'', []],
        host \<leftarrow> [''youtube.com'', ''youtu.be'']]"

definition documented_shape :: "string \<Rightarrow> bool" where
  "documented_shape url =
     list_ex (\<lambda>origin.
        let p = origin @ ''/playlist?list=''
        in take (length p) url = p \<and>
           (case drop (length p) url of [] \<Rightarrow> False | c # rest \<Rightarrow> in_class id_class c))
       documented_origins"

section \<open>Two playlists for the examples\<close>

definition old_session :: session_state where
  "old_session =
     \<lparr>ss_selected_videos = {|0, 1|}, ss_select_all_clicked = False, ss_clear_all_clicked = False,
      ss_video_data = [sim_item 0 ''a'', sim_item 1 ''b''],
      ss_video_urls = [''https://www.youtube.com/watch?v=a'',
                       ''https://www.youtube.com/watch?v=b'']\<rparr>"

definition new_playlist :: "entry option list" where
  "new_playlist = [Some \<lparr>entry_id = ''n'', entry_title = Some ''new'', entry_duration = None\<rparr>]"

section \<open>Properties of the download loop\<close>

subsection \<open>Python subscripts\<close>


subsection \<open>The sorted selection\<close>

lemma length_sorted_selection: "length (sorted_list_of_fset S) = fcard S"
  by (simp add: sorted_list_of_fset.rep_eq fcard.rep_eq)

lemma sorted_sorted_selection: "sorted (sorted_list_of_fset S)"
  by (simp add: sorted_list_of_fset.rep_eq)


lemma fcard_0_iff: "fcard S = 0 \<longleftrightarrow> S = {||}"
  by (rule fcard_0_eq)








subsection \<open>One item\<close>

lemma outcomes_append: "outcomes (xs @ ys) = outcomes xs @ outcomes ys"
  by (simp add: outcomes_def map_filter_def)

lemma outcomes_Nil: "outcomes [] = []"
  by (simp add: outcomes_def map_filter_def)

lemma outcomes_Cons:
  "outcomes (l # ls) = (case outcome_of l of None \<Rightarrow> [] | Some r \<Rightarrow> [r]) @ outcomes ls"
  by (simp add: outcomes_def map_filter_def split: option.splits)

lemma attempts_Nil: "attempts [] = []"
  by (simp add: attempts_def map_filter_def)

lemma attempts_Cons:
  "attempts (l # ls) = (case attempt_of l of None \<Rightarrow> [] | Some r \<Rightarrow> [r]) @ attempts ls"
  by (simp add: attempts_def map_filter_def split: option.splits)


lemma successes_append: "successes (xs @ ys) = successes xs + successes ys"
  by (simp add: successes_def outcomes_append)


lemma outcomes_download_item:
  "outcomes (console_content (download_item env opts t i u ttl st)) =
     outcomes (console_content st)
       @ [(Suc i, ttl, if file_materialized env opts u (world st) then Succeeded else Failed)]"
  by (simp add: download_item_def file_materialized_def Let_def outcomes_def map_filter_def
        split: prod.splits sum.splits)


lemma success_count_download_item:
  "success_count (download_item env opts t i u ttl st) =
     success_count st + (if file_materialized env opts u (world st) then 1 else 0)"
  by (simp add: download_item_def file_materialized_def Let_def
        split: prod.splits sum.splits)



subsection \<open>The loop\<close>











text \<open>Without any assumption on the subscripts: the counter never exceeds the items seen.\<close>

lemma success_count_download_loop:
  "download_loop env opts us vd t ps st = Inr st' \<Longrightarrow>
     success_count st' \<le> success_count st + length ps"
proof (induction ps arbitrary: st)
  case Nil
  then show ?case by simp
next
  case (Cons p ps)
  obtain i idx where p: "p = (i, idx)" by (cases p)
  show ?case
  proof (cases "idx < int (length us)")
    case False
    with Cons.prems p have "download_loop env opts us vd t ps st = Inr st'" by simp
    from Cons.IH [OF this] show ?thesis by simp
  next
    case True
    with Cons.prems p obtain u ttl where
      "download_loop env opts us vd t ps (download_item env opts t i u ttl st) = Inr st'"
      by (auto split: sum.splits)
    from Cons.IH [OF this] show ?thesis
      by (simp add: success_count_download_item split: if_splits)
  qed
qed


lemma success_count_successes_loop:
  "download_loop env opts us vd t ps st = Inr st' \<Longrightarrow>
     success_count st' + successes (console_content st) =
     success_count st + successes (console_content st')"
proof (induction ps arbitrary: st)
  case Nil
  then show ?case by simp
next
  case (Cons p ps)
  obtain i idx where p: "p = (i, idx)" by (cases p)
  show ?case
  proof (cases "idx < int (length us)")
    case False
    with Cons.prems p have "download_loop env opts us vd t ps st = Inr st'" by simp
    from Cons.IH [OF this] show ?thesis .
  next
    case True
    with Cons.prems p obtain u ttl where
      "download_loop env opts us vd t ps (download_item env opts t i u ttl st) = Inr st'"
      by (auto split: sum.splits)
    from Cons.IH [OF this] show ?thesis
      by (simp add: success_count_download_item successes_def outcomes_download_item
            split: if_splits)
  qed
qed

lemma console_download_item_prefix:
  "\<exists>ls. console_content (download_item env opts t i u ttl st) = console_content st @ ls"
  by (simp add: download_item_def Let_def split: prod.splits sum.splits)

subsection \<open>Before and after the loop\<close>

lemma outcomes_initial_console: "outcomes (initial_console self t a q) = []"
  by (simp add: initial_console_def outcomes_def map_filter_def)


lemma successes_initial_console: "successes (initial_console self t a q) = 0"
  by (simp add: successes_def outcomes_initial_console)


lemma outcomes_summary_lines: "outcomes (summary_lines n t) = []"
  by (simp add: summary_lines_def outcomes_def map_filter_def)



lemma console_final_summary:
  "console_content (final_summary self t st) =
     console_content st @ [Separator] @ summary_lines (success_count st) t
       @ [FilesSavedTo (download_path self)]"
  by (simp add: final_summary_def)

lemma success_count_final_summary: "success_count (final_summary self t st) = success_count st"
  by (simp add: final_summary_def)

lemma outcomes_final_summary:
  "outcomes (console_content (final_summary self t st)) = outcomes (console_content st)"
  by (simp add: console_final_summary outcomes_append outcomes_Cons outcomes_Nil
        outcomes_summary_lines)



lemma successes_final_summary:
  "successes (console_content (final_summary self t st)) = successes (console_content st)"
  by (simp add: successes_def outcomes_final_summary)



subsection \<open>The whole call\<close>















text \<open>
  What the two assumptions of \<open>download_videos_batch\<close> exclude. A negative subscript counts
  from the end of the list, and below \<open>-len(video_urls)\<close> it raises; a \<open>video_data\<close> shorter
  than \<open>video_urls\<close> raises as well. Neither arises in \<open>main\<close>.
\<close>

lemma negative_subscript_counts_from_end:
  "\<exists>st. download_videos (sim_env [] []) sim_self [sim_item 0 ''a'', sim_item 1 ''b''] []
          [''u0'', ''u1''] {|- 1|} False ''best'' = Inr (True, st) \<and>
        attempts (console_content st) = [(1, ''u1'')]"
  by (simp add: download_videos_def Let_def fcard_finsert_if sorted_list_of_fset.rep_eq
     py_index_def download_item_def sim_env_def sim_self_def sim_item_def initial_console_def
     final_summary_def summary_lines_def build_ydl_opts_def dict_get_def quality_map_def
     attempts_Cons attempts_Nil)

lemma subscript_below_range_raises:
  "\<exists>st. download_videos (sim_env [] []) sim_self [sim_item 0 ''a''] []
          [''u0''] {|- 5|} False ''best'' = Inl (IndexError, st)"
  by (simp add: download_videos_def Let_def fcard_finsert_if sorted_list_of_fset.rep_eq
     py_index_def)

lemma short_video_data_raises:
  "\<exists>st. download_videos (sim_env [] []) sim_self [] []
          [''u0''] {|0|} False ''best'' = Inl (IndexError, st)"
  by (simp add: download_videos_def Let_def fcard_finsert_if sorted_list_of_fset.rep_eq
     py_index_def)

section \<open>Properties of the playlist page\<close>

lemma build_video_lists_length:
  "length (fst acc) = length (snd acc) \<Longrightarrow>
     length (fst (build_video_lists thumb es acc)) = length (snd (build_video_lists thumb es acc))"
  by (induction thumb es acc rule: build_video_lists.induct) (simp_all add: Let_def)

lemma page_lists_parallel:
  assumes "length (ss_video_data s) = length (ss_video_urls s)"
  shows "length (ss_video_data (playlist_page thumb videos clicked s))
           = length (ss_video_urls (playlist_page thumb videos clicked s))"
proof -
  have "length (fst (build_video_lists thumb (enumerate 0 videos) ([], [])))
      = length (snd (build_video_lists thumb (enumerate 0 videos) ([], [])))"
    by (rule build_video_lists_length) simp
  with assms show ?thesis
    by (cases clicked) (auto simp: playlist_page_def Let_def split: prod.splits)
qed

lemma selection_nonneg:
  assumes "\<forall>i. i |\<in>| ss_selected_videos s \<longrightarrow> 0 \<le> i"
  shows "\<forall>i. i |\<in>| ss_selected_videos (playlist_page thumb videos clicked s) \<longrightarrow> 0 \<le> i"
  using assms
  by (cases clicked) (auto simp: playlist_page_def Let_def fset_of_list.rep_eq split: prod.splits)

lemma init_session_fresh:
  "init_session_state \<lparr>stored_selected_videos = None, stored_select_all_clicked = None,
      stored_clear_all_clicked = None, stored_video_data = None, stored_video_urls = None\<rparr>
   = \<lparr>ss_selected_videos = {||}, ss_select_all_clicked = False, ss_clear_all_clicked = False,
      ss_video_data = [], ss_video_urls = []\<rparr>"
  by (simp add: init_session_state_def)


section \<open>The claims\<close>

text \<open>
  The theorems about a whole call assume what \<open>main\<close> establishes before it calls
  \<open>download_videos\<close>: the selected indices are not negative (they come from
  \<open>range(len(video_data))\<close>, see \<open>selection_nonneg\<close>), and \<open>video_data\<close> has an entry for
  every URL (both lists are filled by the same loop, see \<open>page_lists_parallel\<close>).
\<close>

subsection \<open>Claim C1\<close>



subsection \<open>Claim C2\<close>





text \<open>The example of the specification, evaluated: three items, the second raises.\<close>

lemma continue_on_error_example:
  "download_videos (sim_env [''u1''] []) sim_self
     [sim_item 0 ''a'', sim_item 1 ''b'', sim_item 2 ''c''] []
     [''u0'', ''u1'', ''u2''] {|0, 1, 2|} False ''best'' = Inr (b, st) \<Longrightarrow>
   outcomes (console_content st) = [(1, ''a'', Succeeded), (2, ''b'', Failed), (3, ''c'', Succeeded)]
   \<and> world st = [''u0.mp4'', ''u2.mp4''] \<and> success_count st = 2 \<and> b"
  by (auto simp add: download_videos_def Let_def fcard_finsert_if sorted_list_of_fset.rep_eq
     py_index_def download_item_def sim_env_def sim_self_def sim_item_def initial_console_def
     final_summary_def summary_lines_def build_ydl_opts_def dict_get_def quality_map_def
     outcomes_Cons outcomes_Nil)

subsection \<open>Claim C3\<close>



subsection \<open>Claim C4\<close>

lemma take_eq_iff_append: "take (length l) s = l \<longleftrightarrow> (\<exists>t. s = l @ t)"
  by (metis append_eq_conv_conj append_take_drop_id)

lemma take_takeWhile: "k \<le> length (takeWhile P s) \<Longrightarrow> take k s = take k (takeWhile P s)"
proof -
  assume "k \<le> length (takeWhile P s)"
  then have "take k (takeWhile P s @ dropWhile P s) = take k (takeWhile P s)"
    by (simp del: takeWhile_dropWhile_id)
  then show ?thesis by simp
qed

lemma plus_step:
  "set (map (\<lambda>k. drop k s) (rev [1..<Suc (length (takeWhile P s))])) =
     {t. \<exists>u. u \<noteq> [] \<and> (\<forall>c \<in> set u. P c) \<and> s = u @ t}"
proof (intro set_eqI iffI)
  fix t
  assume "t \<in> set (map (\<lambda>k. drop k s) (rev [1..<Suc (length (takeWhile P s))]))"
  then obtain k where k: "1 \<le> k" "k \<le> length (takeWhile P s)" and t: "t = drop k s"
    by auto
  have "take k s = take k (takeWhile P s)"
    using k(2) by (rule take_takeWhile)
  then have "\<forall>c \<in> set (take k s). P c"
    by (metis in_set_takeD set_takeWhileD)
  moreover have "take k s \<noteq> []"
    using k length_takeWhile_le [of P s] by (cases s) auto
  moreover have "s = take k s @ t"
    by (simp add: t)
  ultimately show "t \<in> {t. \<exists>u. u \<noteq> [] \<and> (\<forall>c \<in> set u. P c) \<and> s = u @ t}"
    by blast
next
  fix t
  assume "t \<in> {t. \<exists>u. u \<noteq> [] \<and> (\<forall>c \<in> set u. P c) \<and> s = u @ t}"
  then obtain u where u: "u \<noteq> []" "\<forall>c \<in> set u. P c" "s = u @ t"
    by blast
  from u(2) have "takeWhile P (u @ t) = u @ takeWhile P t"
    by (simp add: takeWhile_append2)
  with u(3) have "length u \<le> length (takeWhile P s)"
    by simp
  moreover from u(1) have "1 \<le> length u"
    by (cases u) simp_all
  ultimately have mem: "length u \<in> set (rev [1..<Suc (length (takeWhile P s))])"
    unfolding set_rev set_upt atLeastLessThan_iff by linarith
  from u(3) have "t = drop (length u) s"
    by simp
  with mem show "t \<in> set (map (\<lambda>k. drop k s) (rev [1..<Suc (length (takeWhile P s))]))"
    unfolding set_map by blast
qed

lemma set_re_step: "set (re_step r s) = {t. \<exists>u \<in> lang r. s = u @ t}"
proof (induction r arbitrary: s)
  case (Lit l)
  show ?case by (auto simp: take_eq_iff_append)
next
  case (Opt r)
  show ?case by (auto simp: Opt.IH)
next
  case (Alt r1 r2)
  show ?case by (auto simp: Alt.IH)
next
  case (Seq r1 r2)
  show ?case by (fastforce simp: Seq.IH conc_def)
next
  case (PlusCls items)
  have "set (re_step (PlusCls items) s) =
          {t. \<exists>u. u \<noteq> [] \<and> (\<forall>c \<in> set u. in_class items c) \<and> s = u @ t}"
    unfolding re_step.simps by (rule plus_step)
  then show ?case by auto
qed

lemma is_valid_lang:
  "is_valid_playlist_url url \<longleftrightarrow> (\<exists>u \<in> lang playlist_pattern. \<exists>t. url = u @ t)"
proof -
  have "is_valid_playlist_url url \<longleftrightarrow> set (re_step playlist_pattern url) \<noteq> {}"
    by (simp add: is_valid_playlist_url_def re_match_def split: list.splits)
  then show ?thesis
    by (auto simp: set_re_step)
qed

lemma conc_empty: "conc {} B = {}"
  by (simp add: conc_def)

lemma conc_insert: "conc (insert a A) B = (\<lambda>v. a @ v) ` B \<union> conc A B"
  by (auto simp: conc_def)

lemma conc_assoc: "conc A (conc B C) = conc (conc A B) C"
  unfolding conc_def
  by (auto; metis append.assoc)

lemma conc_Un: "conc (A \<union> A') B = conc A B \<union> conc A' B"
  by (auto simp: conc_def)

lemma lang_origin:
  "conc (conc (lang (Opt (Seq (Lit ''http'') (Seq (Opt (Lit ''s'')) (Lit ''://'')))))
            (lang (Opt (Lit ''www.''))))
            (lang (Alt (Lit ''youtube.com'') (Seq (Lit ''youtu'') (Seq (Opt (Lit ''.'')) (Lit ''be'')))))
     = set accepted_origins"
  by (simp add: conc_insert conc_empty conc_Un accepted_origins_def insert_commute)

lemma lang_pattern:
  "lang playlist_pattern =
     conc (conc (set accepted_origins) {''/playlist?list=''}) (lang (PlusCls id_class))"
proof -
  have "lang playlist_pattern =
     conc (conc (conc (conc (lang (Opt (Seq (Lit ''http'') (Seq (Opt (Lit ''s'')) (Lit ''://'')))))
            (lang (Opt (Lit ''www.''))))
            (lang (Alt (Lit ''youtube.com'') (Seq (Lit ''youtu'') (Seq (Opt (Lit ''.'')) (Lit ''be''))))))
            (lang (Lit ''/playlist?list=''))) (lang (PlusCls id_class))"
    unfolding playlist_pattern_def lang.simps(4) conc_assoc ..
  then show ?thesis
    unfolding lang_origin by simp
qed

lemma valid_characterisation:
  "is_valid_playlist_url url \<longleftrightarrow>
     (\<exists>origin \<in> set accepted_origins. \<exists>c rest.
        url = origin @ ''/playlist?list='' @ c # rest \<and> in_class id_class c)"
proof
  assume "is_valid_playlist_url url"
  then obtain u t where u: "u \<in> lang playlist_pattern" and url: "url = u @ t"
    by (auto simp: is_valid_lang)
  from u obtain origin v where o: "origin \<in> set accepted_origins"
    and v: "v \<noteq> []" "\<forall>c \<in> set v. in_class id_class c"
    and ueq: "u = (origin @ ''/playlist?list='') @ v"
    unfolding lang_pattern conc_def by auto
  from v(1) obtain c v' where cv: "v = c # v'" by (cases v) auto
  with v(2) have "in_class id_class c" by simp
  moreover have "url = origin @ ''/playlist?list='' @ c # (v' @ t)"
    by (simp add: url ueq cv)
  ultimately show "\<exists>origin \<in> set accepted_origins. \<exists>c rest.
        url = origin @ ''/playlist?list='' @ c # rest \<and> in_class id_class c"
    using o by blast
next
  assume "\<exists>origin \<in> set accepted_origins. \<exists>c rest.
        url = origin @ ''/playlist?list='' @ c # rest \<and> in_class id_class c"
  then obtain origin c rest where o: "origin \<in> set accepted_origins"
    and url: "url = origin @ ''/playlist?list='' @ c # rest" and c: "in_class id_class c"
    by blast
  have "[c] \<in> lang (PlusCls id_class)"
    using c by simp
  with o have "(origin @ ''/playlist?list='') @ [c] \<in> lang playlist_pattern"
    unfolding lang_pattern conc_def by blast
  moreover have "url = ((origin @ ''/playlist?list='') @ [c]) @ rest"
    by (simp add: url)
  ultimately show "is_valid_playlist_url url"
    unfolding is_valid_lang by blast
qed

lemma contains_iff: "contains pat s \<longleftrightarrow> (\<exists>a b. s = a @ pat @ b)"
proof (induction s)
  case Nil
  show ?case by auto
next
  case (Cons c s)
  show ?case
  proof
    assume "contains pat (c # s)"
    then consider "take (length pat) (c # s) = pat" | "contains pat s" by auto
    then show "\<exists>a b. c # s = a @ pat @ b"
    proof cases
      case 1
      then obtain t where "c # s = pat @ t" unfolding take_eq_iff_append ..
      then have "c # s = [] @ pat @ t" by simp
      then show ?thesis by blast
    next
      case 2
      then obtain a b where "s = a @ pat @ b" using Cons.IH by blast
      then have "c # s = (c # a) @ pat @ b" by simp
      then show ?thesis by blast
    qed
  next
    assume "\<exists>a b. c # s = a @ pat @ b"
    then obtain a b where ab: "c # s = a @ pat @ b" by blast
    show "contains pat (c # s)"
    proof (cases a)
      case Nil
      with ab have "\<exists>t. c # s = pat @ t" by auto
      then have "take (length pat) (c # s) = pat" unfolding take_eq_iff_append .
      then show ?thesis by simp
    next
      case (Cons d a')
      with ab have "s = a' @ pat @ b" by simp
      then have "contains pat s" using Cons.IH by blast
      then show ?thesis by simp
    qed
  qed
qed


lemma contains_append_left: "contains pat a \<Longrightarrow> contains pat (a @ b)"
  unfolding contains_iff by (metis append.assoc)

lemma contains_append_right: "contains pat b \<Longrightarrow> contains pat (a @ b)"
  unfolding contains_iff by (metis append.assoc)

lemma documented_shape_valid:
  assumes "documented_shape url"
  shows "is_valid_playlist_url url"
proof -
  from assms obtain origin where o: "origin \<in> set documented_origins"
    and p: "take (length (origin @ ''/playlist?list='')) url = origin @ ''/playlist?list=''"
    and d: "(case drop (length (origin @ ''/playlist?list='')) url of
               [] \<Rightarrow> False | c # rest \<Rightarrow> in_class id_class c)"
    unfolding documented_shape_def list_ex_iff Let_def by blast
  from d obtain c rest where cr: "drop (length (origin @ ''/playlist?list='')) url = c # rest"
    and c: "in_class id_class c"
    by (auto split: list.splits)
  have "url = take (length (origin @ ''/playlist?list='')) url
                @ drop (length (origin @ ''/playlist?list='')) url"
    by simp
  then have url: "url = origin @ ''/playlist?list='' @ c # rest"
    unfolding p cr by simp
  have "set documented_origins \<subseteq> set accepted_origins"
    by (simp add: documented_origins_def accepted_origins_def)
  with o have "origin \<in> set accepted_origins" by blast
  with url c show ?thesis
    unfolding valid_characterisation by blast
qed

lemma accepted_origins_host:
  "origin \<in> set accepted_origins \<Longrightarrow> contains ''youtube'' origin \<or> contains ''youtu.be'' origin"
  by (auto simp: accepted_origins_def)

text \<open>
  Claim C4, as amended. \<open>is_valid_playlist_url\<close> returns true exactly for the strings that
  begin with an optional \<open>http://\<close> or \<open>https://\<close>, an optional \<open>www.\<close>, one of the hosts
  \<open>youtube.com\<close>, \<open>youtu.be\<close> and \<open>youtube\<close>, then \<open>/playlist?list=\<close> and at least one
  letter, digit, underscore or hyphen; whatever follows is not looked at. So every string of
  the documented shape is accepted, and every string without \<open>list=\<close>, or with none of
  the three hosts in it, is rejected.
\<close>

theorem playlist_url_accepted_shape:
  "(is_valid_playlist_url url \<longleftrightarrow>
      (\<exists>origin \<in> set accepted_origins. \<exists>c rest.
         url = origin @ ''/playlist?list='' @ c # rest \<and> in_class id_class c)) \<and>
   (documented_shape url \<longrightarrow> is_valid_playlist_url url) \<and>
   (\<not> contains ''list='' url \<longrightarrow> \<not> is_valid_playlist_url url) \<and>
   (\<not> contains ''youtube'' url \<and> \<not> contains ''youtu.be'' url \<longrightarrow> \<not> is_valid_playlist_url url)"
proof (intro conjI impI)
  show "is_valid_playlist_url url \<longleftrightarrow>
      (\<exists>origin \<in> set accepted_origins. \<exists>c rest.
         url = origin @ ''/playlist?list='' @ c # rest \<and> in_class id_class c)"
    by (rule valid_characterisation)
next
  assume "documented_shape url"
  then show "is_valid_playlist_url url" by (rule documented_shape_valid)
next
  assume no: "\<not> contains ''list='' url"
  show "\<not> is_valid_playlist_url url"
  proof
    assume "is_valid_playlist_url url"
    then obtain origin c rest where "url = origin @ ''/playlist?list='' @ c # rest"
      unfolding valid_characterisation by blast
    then have "url = (origin @ ''/playlist?'') @ ''list='' @ (c # rest)"
      by simp
    then have "contains ''list='' url"
      unfolding contains_iff by blast
    with no show False ..
  qed
next
  assume no: "\<not> contains ''youtube'' url \<and> \<not> contains ''youtu.be'' url"
  show "\<not> is_valid_playlist_url url"
  proof
    assume "is_valid_playlist_url url"
    then obtain origin c rest where o: "origin \<in> set accepted_origins"
      and url: "url = origin @ ''/playlist?list='' @ c # rest"
      unfolding valid_characterisation by blast
    from accepted_origins_host [OF o]
    have "contains ''youtube'' url \<or> contains ''youtu.be'' url"
      unfolding url by (auto intro: contains_append_left)
    with no show False by blast
  qed
qed

theorem playlist_url_accepted_shape_witness:
  "documented_shape ''https://www.youtube.com/playlist?list=PL123'' \<and>
   is_valid_playlist_url ''https://www.youtube.com/playlist?list=PL123'' \<and>
   \<not> contains ''list='' ''https://www.youtube.com/watch?v=abc123'' \<and>
   \<not> is_valid_playlist_url ''https://www.youtube.com/watch?v=abc123'' \<and>
   \<not> contains ''youtube'' ''https://vimeo.com/playlist?list=PL123'' \<and>
   \<not> contains ''youtu.be'' ''https://vimeo.com/playlist?list=PL123'' \<and>
   \<not> is_valid_playlist_url ''https://vimeo.com/playlist?list=PL123''"
proof -
  have d: "documented_shape ''https://www.youtube.com/playlist?list=PL123''"
    by (simp add: documented_shape_def documented_origins_def in_class_def id_class_def)
  have l: "\<not> contains ''list='' ''https://www.youtube.com/watch?v=abc123''"
    by simp
  have h: "\<not> contains ''youtube'' ''https://vimeo.com/playlist?list=PL123'' \<and>
           \<not> contains ''youtu.be'' ''https://vimeo.com/playlist?list=PL123''"
    by simp
  from playlist_url_accepted_shape [of "''https://www.youtube.com/playlist?list=PL123''"]
    playlist_url_accepted_shape [of "''https://www.youtube.com/watch?v=abc123''"]
    playlist_url_accepted_shape [of "''https://vimeo.com/playlist?list=PL123''"]
  show ?thesis
    using d l h by blast
qed

text \<open>
  Claim C4 as stated fails: the dot in \<open>youtu\.?be\<close> is optional, so a string whose host
  is \<open>youtube\<close> is accepted, although it has neither of the two documented hosts.
\<close>

theorem host_without_dot_accepted:
  "is_valid_playlist_url ''youtube/playlist?list=a'' \<and>
   \<not> documented_shape ''youtube/playlist?list=a'' \<and>
   \<not> contains ''youtube.com'' ''youtube/playlist?list=a'' \<and>
   \<not> contains ''youtu.be'' ''youtube/playlist?list=a''"
  by (simp add: is_valid_playlist_url_def re_match_def playlist_pattern_def in_class_def
        id_class_def documented_shape_def documented_origins_def)

text \<open>The two examples of the specification, and three more.\<close>

lemma playlist_url_examples:
  "is_valid_playlist_url ''https://www.youtube.com/playlist?list=PL123''"
  "\<not> is_valid_playlist_url ''https://www.youtube.com/watch?v=abc123''"
  "is_valid_playlist_url ''youtu.be/playlist?list=a_b-c''"
  "is_valid_playlist_url ''http://youtube.com/playlist?list=PL123&index=2 and more''"
  "\<not> is_valid_playlist_url ''https://www.youtube.com/playlist?list=''"
  by (simp_all add: is_valid_playlist_url_def re_match_def playlist_pattern_def in_class_def
        id_class_def)

subsection \<open>Claim C5\<close>

lemma video_format:
  "format (build_ydl_opts join self False quality) =
     dict_get quality_map quality ''best[height<=720]/best''"
  by (simp add: build_ydl_opts_def)

lemma quality_map_tiers:
  "dict_get quality_map ''best'' d = ''best[height<=1080]/best[height<=720]/best''"
  "dict_get quality_map ''1080p'' d = ''best[height<=1080]''"
  "dict_get quality_map ''720p'' d = ''best[height<=720]''"
  "dict_get quality_map ''480p'' d = ''best[height<=480]''"
  "dict_get quality_map ''360p'' d = ''best[height<=360]''"
  by (simp_all add: dict_get_def quality_map_def)

lemma quality_map_other:
  "quality \<notin> set [''best'', ''1080p'', ''720p'', ''480p'', ''360p''] \<Longrightarrow>
     dict_get quality_map quality d = d"
  by (simp add: dict_get_def quality_map_def)

text \<open>
  Claim C5, as amended. In video mode only the tier \<open>best\<close>, and the default used for a
  quality that is none of the five tiers, have a format string with a fallback to best
  available. The tiers \<open>1080p\<close>, \<open>720p\<close>, \<open>480p\<close> and \<open>360p\<close> ask for the best format
  at or below their ceiling and nothing else: their format string has a single alternative.
\<close>

theorem tier_format_strings:
  "format_alternatives (format (build_ydl_opts join self False ''best''))
     = [''best[height<=1080]'', ''best[height<=720]'', ''best''] \<and>
   has_best_fallback (format (build_ydl_opts join self False ''best'')) \<and>
   format_alternatives (format (build_ydl_opts join self False ''1080p'')) = [''best[height<=1080]''] \<and>
   format_alternatives (format (build_ydl_opts join self False ''720p'')) = [''best[height<=720]''] \<and>
   format_alternatives (format (build_ydl_opts join self False ''480p'')) = [''best[height<=480]''] \<and>
   format_alternatives (format (build_ydl_opts join self False ''360p'')) = [''best[height<=360]''] \<and>
   \<not> has_best_fallback (format (build_ydl_opts join self False ''1080p'')) \<and>
   \<not> has_best_fallback (format (build_ydl_opts join self False ''720p'')) \<and>
   \<not> has_best_fallback (format (build_ydl_opts join self False ''480p'')) \<and>
   \<not> has_best_fallback (format (build_ydl_opts join self False ''360p'')) \<and>
   (quality \<notin> set [''best'', ''1080p'', ''720p'', ''480p'', ''360p''] \<longrightarrow>
      format_alternatives (format (build_ydl_opts join self False quality))
        = [''best[height<=720]'', ''best''] \<and>
      has_best_fallback (format (build_ydl_opts join self False quality)))"
  by (simp add: video_format quality_map_tiers quality_map_other
        has_best_fallback_def format_alternatives_def)

theorem tier_format_strings_witness:
  "''4k'' \<notin> set [''best'', ''1080p'', ''720p'', ''480p'', ''360p''] \<and>
   format_alternatives (format (build_ydl_opts (\<lambda>a b. a @ b) sim_self False ''4k''))
     = [''best[height<=720]'', ''best''] \<and>
   has_best_fallback (format (build_ydl_opts (\<lambda>a b. a @ b) sim_self False ''4k'')) \<and>
   has_best_fallback (format (build_ydl_opts (\<lambda>a b. a @ b) sim_self False ''best'')) \<and>
   format (build_ydl_opts (\<lambda>a b. a @ b) sim_self False ''480p'') = ''best[height<=480]''"
proof -
  have h: "''4k'' \<notin> set [''best'', ''1080p'', ''720p'', ''480p'', ''360p'']"
    by simp
  have f: "format (build_ydl_opts (\<lambda>a b. a @ b) sim_self False ''480p'') = ''best[height<=480]''"
    by (simp add: video_format quality_map_tiers)
  from tier_format_strings [of "\<lambda>a b. a @ b" sim_self "''4k''"]
  show ?thesis
    using h f by blast
qed

text \<open>
  Claim C5 as stated fails: the format string of the tier \<open>720p\<close> has no fallback.
\<close>

theorem tier_without_fallback:
  "format (build_ydl_opts (\<lambda>a b. a @ b) sim_self False ''720p'') = ''best[height<=720]'' \<and>
   \<not> has_best_fallback (format (build_ydl_opts (\<lambda>a b. a @ b) sim_self False ''720p''))"
  by (simp add: video_format quality_map_tiers has_best_fallback_def format_alternatives_def)

subsection \<open>Claim C6\<close>

lemma download_videos_InrD:
  assumes "download_videos env self vd w us sel a q = Inr (b, st)"
    and "us \<noteq> []" and "sel \<noteq> {||}"
  shows "\<exists>stL. download_loop env (build_ydl_opts (os_path_join env) self a q) us vd (fcard sel)
                 (enumerate 0 (sorted_list_of_fset sel))
                 \<lparr>console_content = initial_console self (fcard sel) a q, success_count = 0,
                  ui = [Subheader, ProgressBar 0 100], world = w\<rparr> = Inr stL \<and>
               st = final_summary self (fcard sel) stL \<and> b = (0 < success_count stL)"
  using assms
  by (auto simp: download_videos_def Let_def fcard_0_iff split: sum.splits)

lemma summary_lines_cases:
  "n = t \<Longrightarrow> summary_lines n t = [AllCompleted t t]"
  "n = 0 \<Longrightarrow> 0 < t \<Longrightarrow> summary_lines n t = [AllFailed t]"
  "0 < n \<Longrightarrow> n \<noteq> t \<Longrightarrow>
     summary_lines n t = [PartialSuccess n t, DownloadsFailed (int t - int n)]"
  by (simp_all add: summary_lines_def)

text \<open>
  Claim C6. A call that reaches the end of the loop closes the console with the
  classification computed from the success counter and the size of the selection: all
  completed when the counter equals the total, all failed when it is zero, and otherwise
  partial success with the number of failures, which is the total minus the counter.
  The counter is the number of success outcomes on the console and the returned value
  tells whether it is positive.
\<close>

theorem final_classification:
  assumes "download_videos env self video_data w video_urls selected_indices audio_only quality
             = Inr (b, st)"
    and "video_urls \<noteq> []" and "selected_indices \<noteq> {||}"
  shows "(\<exists>body. console_content st =
            body @ [Separator] @ summary_lines (success_count st) (fcard selected_indices)
              @ [FilesSavedTo (download_path self)]) \<and>
     success_count st = successes (console_content st) \<and>
     success_count st \<le> fcard selected_indices \<and>
     b = (0 < success_count st) \<and>
     (success_count st = fcard selected_indices \<longrightarrow>
        summary_lines (success_count st) (fcard selected_indices)
          = [AllCompleted (fcard selected_indices) (fcard selected_indices)]) \<and>
     (success_count st = 0 \<longrightarrow>
        summary_lines (success_count st) (fcard selected_indices)
          = [AllFailed (fcard selected_indices)]) \<and>
     (0 < success_count st \<and> success_count st < fcard selected_indices \<longrightarrow>
        summary_lines (success_count st) (fcard selected_indices)
          = [PartialSuccess (success_count st) (fcard selected_indices),
             DownloadsFailed (int (fcard selected_indices) - int (success_count st))])"
proof -
  let ?t = "fcard selected_indices"
  from download_videos_InrD [OF assms] obtain stL where
    loop: "download_loop env (build_ydl_opts (os_path_join env) self audio_only quality)
             video_urls video_data ?t (enumerate 0 (sorted_list_of_fset selected_indices))
             \<lparr>console_content = initial_console self ?t audio_only quality, success_count = 0,
              ui = [Subheader, ProgressBar 0 100], world = w\<rparr> = Inr stL"
    and st: "st = final_summary self ?t stL" and b: "b = (0 < success_count stL)"
    by blast
  have pos: "0 < ?t"
    using assms(3) by (simp add: fcard_0_iff zero_less_iff_neq_zero)
  have sc: "success_count st = success_count stL"
    by (simp add: st success_count_final_summary)
  have le: "success_count st \<le> ?t"
    using success_count_download_loop [OF loop] by (simp add: sc length_sorted_selection)
  have "success_count stL = successes (console_content stL)"
    using success_count_successes_loop [OF loop] by (simp add: successes_initial_console)
  then have su: "success_count st = successes (console_content st)"
    by (simp add: st success_count_final_summary successes_final_summary)
  have body: "console_content st =
      console_content stL @ [Separator] @ summary_lines (success_count st) ?t
        @ [FilesSavedTo (download_path self)]"
    by (simp add: st console_final_summary success_count_final_summary)
  from body su le b sc pos show ?thesis
    by (auto simp: summary_lines_cases)
qed

lemma download_videos_example:
  "download_videos (sim_env [''u1''] []) sim_self
     [sim_item 0 ''a'', sim_item 1 ''b'', sim_item 2 ''c''] []
     [''u0'', ''u1'', ''u2''] {|0, 1, 2|} False ''720p'' = Inr (True, sim_run_state)"
  by (simp add: download_videos_def Let_def fcard_finsert_if sorted_list_of_fset.rep_eq
     py_index_def download_item_def sim_env_def sim_self_def sim_item_def initial_console_def
     final_summary_def summary_lines_def build_ydl_opts_def dict_get_def quality_map_def
     sim_run_state_def)

theorem final_classification_witness:
  "[''u0'', ''u1'', ''u2''] \<noteq> [] \<and> {|0, 1, 2|} \<noteq> ({||} :: int fset) \<and>
   download_videos (sim_env [''u1''] []) sim_self
     [sim_item 0 ''a'', sim_item 1 ''b'', sim_item 2 ''c''] []
     [''u0'', ''u1'', ''u2''] {|0, 1, 2|} False ''720p'' = Inr (True, sim_run_state) \<and>
   success_count sim_run_state = 2 \<and>
   success_count sim_run_state = successes (console_content sim_run_state) \<and>
   summary_lines (success_count sim_run_state) (fcard {|0, 1, 2::int|})
     = [PartialSuccess 2 3, DownloadsFailed 1]"
proof -
  have h2: "[''u0'', ''u1'', ''u2''] \<noteq> []"
    by simp
  have h3: "{|0, 1, 2|} \<noteq> ({||} :: int fset)"
    by simp
  have t: "fcard {|0, 1, 2::int|} = 3"
    by (simp add: fcard_finsert_if)
  have n: "success_count sim_run_state = 2"
    by (simp add: sim_run_state_def)
  from final_classification [OF download_videos_example h2 h3]
  have "success_count sim_run_state = successes (console_content sim_run_state)"
    and "0 < success_count sim_run_state \<and> success_count sim_run_state < fcard {|0, 1, 2::int|}
      \<longrightarrow> summary_lines (success_count sim_run_state) (fcard {|0, 1, 2::int|})
          = [PartialSuccess (success_count sim_run_state) (fcard {|0, 1, 2::int|}),
             DownloadsFailed (int (fcard {|0, 1, 2::int|}) - int (success_count sim_run_state))]"
    by blast+
  then show ?thesis
    using h2 h3 n t download_videos_example by simp
qed

subsection \<open>Claim C7\<close>

lemma console_download_item_no_file:
  assumes "extract_info env opts u (world st) = (Inr info, w')"
    and "prepare_filename env opts info = Inr filename"
    and "\<not> os_path_exists env w' filename"
  shows "console_content (download_item env opts t i u ttl st) =
           console_content st @ [ItemStarting (Suc i) t ttl, ItemConnecting (Suc i) t u,
                                 ItemFailed (Suc i) t ttl]"
    and "success_count (download_item env opts t i u ttl st) = success_count st"
  using assms by (simp_all add: download_item_def Let_def)

text \<open>
  Claim C7. An item is counted as a success, and recorded with a success outcome, exactly
  when the download call returns, the service reports a path and a file exists at that
  path afterwards; a call that returns without a file at the reported path is recorded as
  failed and not counted.
\<close>

theorem success_iff_file_exists:
  "success_count (download_item env opts t i u ttl st) =
     success_count st + (if file_materialized env opts u (world st) then 1 else 0) \<and>
   outcomes (console_content (download_item env opts t i u ttl st)) =
     outcomes (console_content st)
       @ [(Suc i, ttl, if file_materialized env opts u (world st) then Succeeded else Failed)] \<and>
   (\<forall>info w' filename.
      extract_info env opts u (world st) = (Inr info, w') \<and>
      prepare_filename env opts info = Inr filename \<and>
      \<not> os_path_exists env w' filename \<longrightarrow>
        console_content (download_item env opts t i u ttl st) =
          console_content st @ [ItemStarting (Suc i) t ttl, ItemConnecting (Suc i) t u,
                                ItemFailed (Suc i) t ttl] \<and>
        success_count (download_item env opts t i u ttl st) = success_count st)"
  using console_download_item_no_file [of env opts u st _ _ _ t i ttl]
  by (simp add: success_count_download_item outcomes_download_item)

theorem success_iff_file_exists_witness:
  "extract_info (sim_env [] [''u0'']) (build_ydl_opts (\<lambda>a b. a @ b) sim_self False ''best'')
     ''u0'' (world sim_start) = (Inr ''u0.mp4'', []) \<and>
   \<not> file_materialized (sim_env [] [''u0''])
        (build_ydl_opts (\<lambda>a b. a @ b) sim_self False ''best'') ''u0'' (world sim_start) \<and>
   success_count (download_item (sim_env [] [''u0''])
        (build_ydl_opts (\<lambda>a b. a @ b) sim_self False ''best'') 1 0 ''u0'' ''a'' sim_start) = 0 \<and>
   outcomes (console_content (download_item (sim_env [] [''u0''])
        (build_ydl_opts (\<lambda>a b. a @ b) sim_self False ''best'') 1 0 ''u0'' ''a'' sim_start))
     = [(1, ''a'', Failed)] \<and>
   file_materialized (sim_env [] [])
        (build_ydl_opts (\<lambda>a b. a @ b) sim_self False ''best'') ''u0'' (world sim_start) \<and>
   success_count (download_item (sim_env [] [])
        (build_ydl_opts (\<lambda>a b. a @ b) sim_self False ''best'') 1 0 ''u0'' ''a'' sim_start) = 1 \<and>
   outcomes (console_content (download_item (sim_env [] [])
        (build_ydl_opts (\<lambda>a b. a @ b) sim_self False ''best'') 1 0 ''u0'' ''a'' sim_start))
     = [(1, ''a'', Succeeded)]"
proof -
  let ?opts = "build_ydl_opts (\<lambda>a b. a @ b) sim_self False ''best''"
  have e: "extract_info (sim_env [] [''u0'']) ?opts ''u0'' (world sim_start) = (Inr ''u0.mp4'', [])"
    by (simp add: sim_env_def sim_start_def)
  have m: "\<not> file_materialized (sim_env [] [''u0'']) ?opts ''u0'' (world sim_start)"
    by (simp add: file_materialized_def sim_env_def sim_start_def)
  have m': "file_materialized (sim_env [] []) ?opts ''u0'' (world sim_start)"
    by (simp add: file_materialized_def sim_env_def sim_start_def)
  have o: "outcomes (console_content sim_start) = []" "success_count sim_start = 0"
    by (simp_all add: sim_start_def outcomes_Cons outcomes_Nil)
  from success_iff_file_exists [of "sim_env [] [''u0'']" ?opts 1 0 "''u0''" "''a''" sim_start]
    success_iff_file_exists [of "sim_env [] []" ?opts 1 0 "''u0''" "''a''" sim_start]
  show ?thesis
    using e m m' by (simp add: o)
qed

subsection \<open>Claim C8\<close>

text \<open>
  Claim C8, as amended. When the selection is empty or the URL list is empty, the call
  returns \<open>False\<close> at once: it shows one error message, writes nothing to the console,
  counts nothing, and leaves the world as it was. (A selected index that is not less than
  the number of URLs does not have this effect: see the counterexample below and
  claim C10.)
\<close>

theorem nothing_to_do:
  assumes "selected_indices = {||} \<or> video_urls = []"
  shows "download_videos env self video_data w video_urls selected_indices audio_only quality =
     Inr (False,
          \<lparr>console_content = [], success_count = 0,
           ui = [StError (if video_urls = [] then ''No videos selected for download''
                          else ''No videos selected'')],
           world = w\<rparr>)"
  using assms by (auto simp: download_videos_def nothing_done_def)

theorem nothing_to_do_witness:
  "download_videos (sim_env [] []) sim_self [sim_item 0 ''a''] [] [''u0''] {||} False ''best'' =
     Inr (False, \<lparr>console_content = [], success_count = 0,
                  ui = [StError ''No videos selected''], world = []\<rparr>) \<and>
   download_videos (sim_env [] []) sim_self [] [] [] {|0|} False ''best'' =
     Inr (False, \<lparr>console_content = [], success_count = 0,
                  ui = [StError ''No videos selected for download''], world = []\<rparr>)"
proof -
  have h: "({||} :: int fset) = {||} \<or> [''u0''] = []" "{|0::int|} = {||} \<or> ([] :: string list) = []"
    by simp_all
  from nothing_to_do [OF h(1), of "sim_env [] []" sim_self "[sim_item 0 ''a'']" "[]" False "''best''"]
    nothing_to_do [OF h(2), of "sim_env [] []" sim_self "[]" "[]" False "''best''"]
  show ?thesis
    by simp
qed

text \<open>
  Claim C8 as stated fails: with the selection \<open>{0, 5}\<close> and one URL, index 5 violates
  the precondition, yet the call downloads item 0, records its outcome and shows no error.
\<close>

theorem out_of_range_index_does_not_abort:
  "5 |\<in>| {|0, 5::int|} \<and> \<not> 5 < int (length [''u0'']) \<and>
   (\<exists>st. download_videos (sim_env [] []) sim_self [sim_item 0 ''a''] [] [''u0''] {|0, 5|}
            False ''best'' = Inr (True, st) \<and>
         attempts (console_content st) = [(1, ''u0'')] \<and>
         outcomes (console_content st) = [(1, ''a'', Succeeded)] \<and>
         world st = [''u0.mp4''] \<and>
         filter is_st_error (ui st) = [])"
  by (simp add: download_videos_def Let_def fcard_finsert_if sorted_list_of_fset.rep_eq
     py_index_def download_item_def sim_env_def sim_self_def sim_item_def initial_console_def
     final_summary_def summary_lines_def build_ydl_opts_def dict_get_def quality_map_def
     outcomes_Cons outcomes_Nil attempts_Cons attempts_Nil)

subsection \<open>Claim C9\<close>

text \<open>
  Claim C9, as amended. Storing a new entry list leaves the selection as it was: a run of
  the page without a click on Select All, Clear All or the form keeps \<open>selected_videos\<close>
  whatever entries it stores, and the initialisation of the session keeps a stored
  selection. (The page stores the lists anew in every run, so a reset on replacement would
  empty the selection each time.)
\<close>

theorem selection_survives_replacement:
  "ss_selected_videos (playlist_page thumb videos NoClick s) = ss_selected_videos s \<and>
   ss_selected_videos (playlist_page thumb videos StartDownload s) = ss_selected_videos s \<and>
   ss_selected_videos (init_session_state (d\<lparr>stored_selected_videos := Some sel\<rparr>)) = sel"
  by (simp add: playlist_page_def init_session_state_def Let_def split: prod.splits)

theorem selection_survives_replacement_witness:
  "ss_selected_videos (playlist_page (\<lambda>v. False) new_playlist NoClick old_session) = {|0, 1|} \<and>
   ss_selected_videos (playlist_page (\<lambda>v. False) new_playlist StartDownload old_session) = {|0, 1|}"
  using selection_survives_replacement [of "\<lambda>v. False" new_playlist old_session]
  by (simp add: old_session_def)

text \<open>
  Claim C9 as stated fails: after a playlist of one entry has replaced a playlist of two,
  the indices 0 and 1 selected under the old list are still selected.
\<close>

theorem selection_not_reset:
  "ss_video_urls old_session
     = [''https://www.youtube.com/watch?v=a'', ''https://www.youtube.com/watch?v=b''] \<and>
   ss_video_urls (playlist_page (\<lambda>v. False) new_playlist NoClick old_session)
     = [''https://www.youtube.com/watch?v=n''] \<and>
   ss_selected_videos (playlist_page (\<lambda>v. False) new_playlist NoClick old_session) = {|0, 1|} \<and>
   ss_selected_videos (playlist_page (\<lambda>v. False) new_playlist NoClick old_session) \<noteq> {||}"
  by (simp add: playlist_page_def old_session_def new_playlist_def Let_def)

text \<open>
  How the call of the counterexample to C10 arises: a selection made on one playlist is
  still there when the next playlist has only entries that are \<open>None\<close>.
\<close>

lemma stale_selection_reaches_empty_url_list:
  "start_download (sim_env [] []) sim_self
     (playlist_page (\<lambda>v. False) [None] NoClick
        (playlist_page (\<lambda>v. False) new_playlist SelectAllClick
           (init_session_state \<lparr>stored_selected_videos = None, stored_select_all_clicked = None,
              stored_clear_all_clicked = None, stored_video_data = None,
              stored_video_urls = None\<rparr>)))
     [] False ''best''
   = Some (download_videos (sim_env [] []) sim_self [] [] [] {|0|} False ''best'')"
  by (simp add: start_download_def playlist_page_def new_playlist_def init_session_state_def
        Let_def)

subsection \<open>Claim C10\<close>




end
